theory Spec2Isabelle
  imports Complex_Main
begin

section \<open>Numbers and coordinates\<close>

text \<open>
  A JavaScript \<^verbatim>\<open>number\<close> is read as a real number or \<^verbatim>\<open>NaN\<close>, and the arithmetic
  as exact. Every comparison with \<^verbatim>\<open>NaN\<close> is false, as in the language, and the invalid
  result of \<^verbatim>\<open>Math.sqrt\<close> is kept. The program runs on IEEE doubles, where every
  operation rounds. Two things follow that exact arithmetic does not show: a distance
  differs from the exact one in its last digits, which decides a comparison only for a
  fix that lies exactly on a threshold; and the argument \<^verbatim>\<open>a\<close> of the haversine formula,
  which is never above 1 when exact, rounds to a value above 1 for some antipodal points,
  where \<^verbatim>\<open>Math.sqrt(1 - a)\<close> is \<^verbatim>\<open>NaN\<close>. The properties of the state machine below take
  the computed distance as it comes, \<^verbatim>\<open>NaN\<close> included.
\<close>

datatype number = Num real | NaN

definition num_le :: "number \<Rightarrow> real \<Rightarrow> bool" where
  "num_le x r = (case x of Num d \<Rightarrow> d \<le> r | NaN \<Rightarrow> False)"

definition num_gt :: "number \<Rightarrow> real \<Rightarrow> bool" where
  "num_gt x r = (case x of Num d \<Rightarrow> d > r | NaN \<Rightarrow> False)"

definition js_sqrt :: "real \<Rightarrow> number" where
  "js_sqrt x = (if x < 0 then NaN else Num (sqrt x))"

text \<open>\<^verbatim>\<open>Math.atan2(y, x)\<close> on real arguments: the angle of the point \<open>(x, y)\<close>.\<close>

definition js_atan2 :: "real \<Rightarrow> real \<Rightarrow> real" where
  "js_atan2 y x =
     (if 0 < x then arctan (y / x)
      else if x < 0 then (if 0 \<le> y then arctan (y / x) + pi else arctan (y / x) - pi)
      else if 0 < y then pi / 2
      else if y < 0 then - (pi / 2)
      else 0)"

text \<open>\<^verbatim>\<open>src/types.ts\<close>: \<^verbatim>\<open>GeoLocation\<close> and its extension \<^verbatim>\<open>TargetLocation\<close>.\<close>

record GeoLocation =
  lat :: real
  lng :: real

record TargetLocation = GeoLocation +
  radius :: real
  timestamp :: int

section \<open>\<^verbatim>\<open>src/utils/geo.ts\<close>\<close>

text \<open>
  The end of \<^verbatim>\<open>calculateDistance\<close>, from the value of \<^verbatim>\<open>a\<close>:
  \<^verbatim>\<open>c = 2 * Math.atan2(Math.sqrt(a), Math.sqrt(1 - a)); return R * c\<close>.
\<close>

definition distance_of_a :: "real \<Rightarrow> number" where
  "distance_of_a a =
     (let R = 6371000
      in case js_sqrt a of
           NaN \<Rightarrow> NaN
         | Num y \<Rightarrow> (case js_sqrt (1 - a) of
                       NaN \<Rightarrow> NaN
                     | Num x \<Rightarrow> Num (R * (2 * js_atan2 y x))))"

text \<open>
  \<^verbatim>\<open>calculateDistance\<close>: the arguments are any objects with \<^verbatim>\<open>lat\<close> and \<^verbatim>\<open>lng\<close>
  (the caller passes a \<^verbatim>\<open>TargetLocation\<close> as second point).
\<close>

definition calculateDistance ::
  "'a GeoLocation_scheme \<Rightarrow> 'b GeoLocation_scheme \<Rightarrow> number" where
  "calculateDistance point1 point2 =
     (let phi1 = lat point1 * pi / 180;
          phi2 = lat point2 * pi / 180;
          dphi = (lat point2 - lat point1) * pi / 180;
          dlam = (lng point2 - lng point1) * pi / 180;
          a = sin (dphi / 2) * sin (dphi / 2)
              + cos phi1 * cos phi2 * sin (dlam / 2) * sin (dlam / 2)
      in distance_of_a a)"

text \<open>
  The haversine formula as the specification words it: with \<open>hav \<theta> = sin\<^sup>2 (\<theta> / 2)\<close>,
  the great-circle distance is \<open>2 R arcsin (sqrt (hav \<Delta>\<phi> + cos \<phi>1 cos \<phi>2 hav \<Delta>\<lambda>))\<close>
  for the Earth radius \<open>R\<close> of 6,371,000 m.
\<close>

definition hav :: "real \<Rightarrow> real" where
  "hav t = (sin (t / 2))\<^sup>2"

definition radians :: "real \<Rightarrow> real" where
  "radians deg = deg * pi / 180"

definition haversine_arg :: "'a GeoLocation_scheme \<Rightarrow> 'b GeoLocation_scheme \<Rightarrow> real" where
  "haversine_arg p q =
     hav (radians (lat q) - radians (lat p))
     + cos (radians (lat p)) * cos (radians (lat q)) * hav (radians (lng q) - radians (lng p))"

definition haversine_spec :: "'a GeoLocation_scheme \<Rightarrow> 'b GeoLocation_scheme \<Rightarrow> real" where
  "haversine_spec p q = 2 * 6371000 * arcsin (sqrt (haversine_arg p q))"

section \<open>\<^verbatim>\<open>src/App.tsx\<close>: the state of the component\<close>

text \<open>
  The React state variables and the watch reference of \<^verbatim>\<open>App\<close>. A focus request is the
  pair of its location and its timestamp. The last two fields are the platform's side of
  \<^verbatim>\<open>navigator.geolocation\<close>: the watches it is running, each with the
  \<^verbatim>\<open>enableHighAccuracy\<close> option it was started with, and the next identifier it hands out.
\<close>

record App_state =
  hasStarted :: bool
  permissionError :: "string option"
  userLocation :: "GeoLocation option"
  targetLocation :: "TargetLocation option"
  distance :: "number option"
  targetRadius :: real
  focusRequest :: "(GeoLocation \<times> int) option"
  isAlarmActive :: bool
  hasTriggeredForCurrentTarget :: bool
  watchIdRef :: "nat option"
  watches :: "(nat \<times> bool) list"
  nextWatchId :: nat

definition App_init :: App_state where
  "App_init =
     \<lparr>hasStarted = False, permissionError = None, userLocation = None,
      targetLocation = None, distance = None, targetRadius = 100, focusRequest = None,
      isAlarmActive = False, hasTriggeredForCurrentTarget = False,
      watchIdRef = None, watches = [], nextWatchId = 0\<rparr>"

subsection \<open>Location watch with fallback\<close>

definition clearWatch :: "nat \<Rightarrow> App_state \<Rightarrow> App_state" where
  "clearWatch w s = s\<lparr>watches := filter (\<lambda>(i, h). i \<noteq> w) (watches s)\<rparr>"

definition attemptWatch :: "bool \<Rightarrow> App_state \<Rightarrow> App_state" where
  "attemptWatch isHighAccuracy s =
     s\<lparr>watchIdRef := Some (nextWatchId s),
       watches := watches s @ [(nextWatchId s, isHighAccuracy)],
       nextWatchId := Suc (nextWatchId s)\<rparr>"

text \<open>
  The first argument says whether \<^verbatim>\<open>navigator.geolocation\<close> exists. The function
  clears a held watch before it tests that: with a watch held and no
  \<^verbatim>\<open>navigator.geolocation\<close>, the call of \<^verbatim>\<open>clearWatch\<close> throws a \<^verbatim>\<open>TypeError\<close>.
\<close>

datatype js_error = TypeError

definition startWatchingLocation ::
  "bool \<Rightarrow> bool \<Rightarrow> App_state \<Rightarrow> js_error + App_state" where
  "startWatchingLocation supported initialHighAccuracy s =
     (case (case watchIdRef s of
              Some w \<Rightarrow>
                if supported then Inr ((clearWatch w s)\<lparr>watchIdRef := None\<rparr>)
                else Inl TypeError
            | None \<Rightarrow> Inr s) of
        Inl err \<Rightarrow> Inl err
      | Inr s1 \<Rightarrow>
          if \<not> supported
          then Inr (s1\<lparr>permissionError :=
                        Some ''Geolocation is not supported by your browser''\<rparr>)
          else Inr (attemptWatch initialHighAccuracy s1))"

text \<open>The success callback of \<^verbatim>\<open>watchPosition\<close>.\<close>

definition onPosition :: "GeoLocation \<Rightarrow> App_state \<Rightarrow> App_state" where
  "onPosition coords s =
     s\<lparr>userLocation := Some \<lparr>lat = lat coords, lng = lng coords\<rparr>,
       permissionError := None\<rparr>"

definition error_message :: "int \<Rightarrow> string \<Rightarrow> string" where
  "error_message code message =
     (if code = 1 then ''Location access denied. Please enable location permissions.''
      else if code = 2 then ''Location unavailable. Please check your GPS signal.''
      else if code = 3 then ''Location request timed out. Please try again.''
      else ''Location error: '' @ message)"

text \<open>
  The error callback of the watch that \<^verbatim>\<open>attemptWatch isHighAccuracy\<close> started; the
  error has a code (1 permission denied, 2 position unavailable, 3 timeout) and a message.
\<close>

definition onPositionError :: "bool \<Rightarrow> int \<Rightarrow> string \<Rightarrow> App_state \<Rightarrow> App_state" where
  "onPositionError isHighAccuracy code message s =
     (if isHighAccuracy \<and> (code = 3 \<or> code = 2) then attemptWatch False s
      else s\<lparr>permissionError := Some (error_message code message)\<rparr>)"

text \<open>
  The start button. The state after the handler: when \<^verbatim>\<open>startWatchingLocation\<close> throws,
  the exception leaves the handler, and the two state updates made before the call stay.
\<close>

definition handleStart :: "bool \<Rightarrow> App_state \<Rightarrow> App_state" where
  "handleStart supported s =
     (let s1 = s\<lparr>hasStarted := True, permissionError := None\<rparr>
      in case startWatchingLocation supported True s1 of
           Inl err \<Rightarrow> s1
         | Inr s2 \<Rightarrow> s2)"

subsection \<open>Geofencing\<close>

definition triggerAlarm :: "App_state \<Rightarrow> App_state" where
  "triggerAlarm s = s\<lparr>isAlarmActive := True, hasTriggeredForCurrentTarget := True\<rparr>"

text \<open>
  One run of the geofencing effect: the new state and the number of calls of
  \<^verbatim>\<open>triggerAlarm\<close>, the arrival events.
\<close>

definition geofence_effect :: "App_state \<Rightarrow> App_state \<times> nat" where
  "geofence_effect s =
     (case userLocation s of
        None \<Rightarrow> (s\<lparr>distance := None\<rparr>, 0)
      | Some u \<Rightarrow>
          (case targetLocation s of
             None \<Rightarrow> (s\<lparr>distance := None\<rparr>, 0)
           | Some t \<Rightarrow>
               (let dist = calculateDistance u t;
                    s1 = s\<lparr>distance := Some dist\<rparr>
                in if num_le dist (radius t)
                   then (if \<not> isAlarmActive s \<and> \<not> hasTriggeredForCurrentTarget s
                         then (triggerAlarm s1, 1)
                         else (s1, 0))
                   else (if num_gt dist (radius t + 50)
                         then (s1\<lparr>hasTriggeredForCurrentTarget := False\<rparr>, 0)
                         else (s1, 0)))))"

text \<open>
  React runs the effect again after a run that changed one of its dependencies; of
  these a run can change the two flags only.
\<close>

function settle :: "App_state \<Rightarrow> App_state \<times> nat" where
  "settle s =
     (let r = geofence_effect s
      in if isAlarmActive (fst r) = isAlarmActive s
            \<and> hasTriggeredForCurrentTarget (fst r) = hasTriggeredForCurrentTarget s
         then r
         else (let r2 = settle (fst r) in (fst r2, snd r + snd r2)))"
  by pat_completeness auto
termination
proof (relation "measure (\<lambda>s.
    if isAlarmActive (fst (geofence_effect s)) = isAlarmActive s
       \<and> hasTriggeredForCurrentTarget (fst (geofence_effect s)) = hasTriggeredForCurrentTarget s
    then 0 else 1)")
  show "wf (measure (\<lambda>s.
    if isAlarmActive (fst (geofence_effect s)) = isAlarmActive s
       \<and> hasTriggeredForCurrentTarget (fst (geofence_effect s)) = hasTriggeredForCurrentTarget s
    then 0 else (1::nat)))"
    by simp
next
  fix s :: App_state and x
  assume x: "x = geofence_effect s"
    and ch: "\<not> (isAlarmActive (fst x) = isAlarmActive s
        \<and> hasTriggeredForCurrentTarget (fst x) = hasTriggeredForCurrentTarget s)"
  have again: "fst (geofence_effect (fst (geofence_effect s))) = fst (geofence_effect s)"
    by (simp add: geofence_effect_def triggerAlarm_def Let_def
        split: option.splits)
  show "(fst x, s) \<in> measure (\<lambda>s.
    if isAlarmActive (fst (geofence_effect s)) = isAlarmActive s
       \<and> hasTriggeredForCurrentTarget (fst (geofence_effect s)) = hasTriggeredForCurrentTarget s
    then 0 else 1)"
    using ch unfolding x by (simp add: again)
qed

declare settle.simps [simp del]

subsection \<open>Handlers\<close>

text \<open>The second argument is the value of \<^verbatim>\<open>Date.now()\<close> at the call.\<close>

definition handleSetTarget :: "GeoLocation \<Rightarrow> int \<Rightarrow> App_state \<Rightarrow> App_state" where
  "handleSetTarget location now s =
     s\<lparr>targetLocation :=
         Some \<lparr>lat = lat location, lng = lng location,
               radius = targetRadius s, timestamp = now\<rparr>,
       hasTriggeredForCurrentTarget := False,
       isAlarmActive := False\<rparr>"

definition handleRadiusChange :: "real \<Rightarrow> App_state \<Rightarrow> App_state" where
  "handleRadiusChange newRadius s =
     (let s1 = s\<lparr>targetRadius := newRadius\<rparr>
      in case targetLocation s of
           None \<Rightarrow> s1
         | Some prev \<Rightarrow> s1\<lparr>targetLocation := Some (prev\<lparr>radius := newRadius\<rparr>)\<rparr>)"

definition handleSearchSelect ::
  "GeoLocation \<Rightarrow> string \<Rightarrow> int \<Rightarrow> int \<Rightarrow> App_state \<Rightarrow> App_state" where
  "handleSearchSelect location name now now' s =
     (handleSetTarget location now s)\<lparr>focusRequest := Some (location, now')\<rparr>"

definition handleClearTarget :: "App_state \<Rightarrow> App_state" where
  "handleClearTarget s =
     s\<lparr>targetLocation := None, isAlarmActive := False,
       hasTriggeredForCurrentTarget := False\<rparr>"

definition handleDismissAlarm :: "App_state \<Rightarrow> App_state" where
  "handleDismissAlarm s = s\<lparr>isAlarmActive := False\<rparr>"

definition handleCenterLocation :: "int \<Rightarrow> App_state \<Rightarrow> App_state" where
  "handleCenterLocation now s =
     (case userLocation s of
        None \<Rightarrow> s
      | Some u \<Rightarrow> s\<lparr>focusRequest := Some (u, now)\<rparr>)"

subsection \<open>Events\<close>

text \<open>
  What the component reacts to: the start button (with whether the browser has
  geolocation), the two callbacks of a watch (the error one with the accuracy its watch
  was started with), a click on the map, the choice of a search result, the radius
  slider, the clear button, the stop button of the alarm overlay and the centre button.
  The integers are the values \<^verbatim>\<open>Date.now()\<close> returns in the handler.
\<close>

datatype event =
    Start bool
  | Position GeoLocation
  | PositionError bool int string
  | MapClick GeoLocation int
  | SearchSelect GeoLocation string int int
  | RadiusChange real
  | ClearTarget
  | DismissAlarm
  | CenterLocation int

fun handler :: "event \<Rightarrow> App_state \<Rightarrow> App_state" where
  "handler (Start supported) s = handleStart supported s"
| "handler (Position coords) s = onPosition coords s"
| "handler (PositionError isHighAccuracy code message) s =
     onPositionError isHighAccuracy code message s"
| "handler (MapClick location now) s = handleSetTarget location now s"
| "handler (SearchSelect location name now now') s =
     handleSearchSelect location name now now' s"
| "handler (RadiusChange newRadius) s = handleRadiusChange newRadius s"
| "handler ClearTarget s = handleClearTarget s"
| "handler DismissAlarm s = handleDismissAlarm s"
| "handler (CenterLocation now) s = handleCenterLocation now s"

text \<open>
  The effect's dependencies are \<^verbatim>\<open>userLocation\<close>, \<^verbatim>\<open>targetLocation\<close> and the two
  flags (\<^verbatim>\<open>triggerAlarm\<close> never changes). React compares objects by identity: a handler
  that stores a newly built object changes the dependency whatever the object holds.
\<close>

fun stores_new_object :: "event \<Rightarrow> App_state \<Rightarrow> bool" where
  "stores_new_object (Position coords) s = True"
| "stores_new_object (MapClick location now) s = True"
| "stores_new_object (SearchSelect location name now now') s = True"
| "stores_new_object (RadiusChange newRadius) s = (targetLocation s \<noteq> None)"
| "stores_new_object e s = False"

definition deps_changed :: "event \<Rightarrow> App_state \<Rightarrow> App_state \<Rightarrow> bool" where
  "deps_changed e s s' =
     (stores_new_object e s
      \<or> (userLocation s = None) \<noteq> (userLocation s' = None)
      \<or> (targetLocation s = None) \<noteq> (targetLocation s' = None)
      \<or> isAlarmActive s \<noteq> isAlarmActive s'
      \<or> hasTriggeredForCurrentTarget s \<noteq> hasTriggeredForCurrentTarget s')"

text \<open>
  One event: the handler's state updates, then the geofencing effect if a dependency
  changed. The result is the state at rest and the number of arrival events.
\<close>

definition dispatch :: "App_state \<Rightarrow> event \<Rightarrow> App_state \<times> nat" where
  "dispatch s e =
     (let s1 = handler e s
      in if deps_changed e s s1 then settle s1 else (s1, 0))"

fun final :: "App_state \<Rightarrow> event list \<Rightarrow> App_state" where
  "final s [] = s"
| "final s (e # es) = final (fst (dispatch s e)) es"

fun arrivals :: "App_state \<Rightarrow> event list \<Rightarrow> nat list" where
  "arrivals s [] = []"
| "arrivals s (e # es) = snd (dispatch s e) # arrivals (fst (dispatch s e)) es"

subsection \<open>Vocabulary of the properties\<close>

text \<open>A position against the zone of a target: inside it, in the 50 m band around it, beyond.\<close>

definition within_radius :: "'a GeoLocation_scheme \<Rightarrow> TargetLocation \<Rightarrow> bool" where
  "within_radius p t = num_le (calculateDistance p t) (radius t)"

definition in_dead_zone :: "'a GeoLocation_scheme \<Rightarrow> TargetLocation \<Rightarrow> bool" where
  "in_dead_zone p t =
     (num_gt (calculateDistance p t) (radius t) \<and> num_le (calculateDistance p t) (radius t + 50))"

definition beyond_band :: "'a GeoLocation_scheme \<Rightarrow> TargetLocation \<Rightarrow> bool" where
  "beyond_band p t = num_gt (calculateDistance p t) (radius t + 50)"

text \<open>The last known position is inside the zone of the current target.\<close>

definition known_inside :: "App_state \<Rightarrow> bool" where
  "known_inside s =
     (case userLocation s of
        None \<Rightarrow> False
      | Some u \<Rightarrow> (case targetLocation s of None \<Rightarrow> False | Some t \<Rightarrow> within_radius u t))"

text \<open>The last known position is beyond the band of the current target.\<close>

definition known_beyond :: "App_state \<Rightarrow> bool" where
  "known_beyond s =
     (case userLocation s of
        None \<Rightarrow> False
      | Some u \<Rightarrow> (case targetLocation s of None \<Rightarrow> False | Some t \<Rightarrow> beyond_band u t))"

text \<open>A state at rest: running the geofencing effect changes nothing.\<close>

definition at_rest :: "App_state \<Rightarrow> bool" where
  "at_rest s = (fst (geofence_effect s) = s)"

text \<open>Events that neither dismiss the alarm nor replace or clear the target.\<close>

fun keeps_alarm :: "event \<Rightarrow> bool" where
  "keeps_alarm (MapClick location now) = False"
| "keeps_alarm (SearchSelect location name now now') = False"
| "keeps_alarm ClearTarget = False"
| "keeps_alarm DismissAlarm = False"
| "keeps_alarm e = True"

text \<open>
  Events that leave a state Triggered for the target \<open>t\<close> as it is: a fix that is not
  beyond the band of \<open>t\<close>, the dismissal of the alarm, and the events that touch neither
  the position nor the target.
\<close>

fun no_rearm :: "TargetLocation \<Rightarrow> event \<Rightarrow> bool" where
  "no_rearm t (Position coords) = (\<not> beyond_band coords t)"
| "no_rearm t DismissAlarm = True"
| "no_rearm t (Start supported) = True"
| "no_rearm t (PositionError isHighAccuracy code message) = True"
| "no_rearm t (CenterLocation now) = True"
| "no_rearm t e = False"

text \<open>
  The fix on the equator that lies \<open>d\<close> metres east of the point \<open>(0, 0)\<close>, for the
  scenarios with a target at \<open>(0, 0)\<close>.
\<close>

definition fix_at :: "real \<Rightarrow> GeoLocation" where
  "fix_at d = \<lparr>lat = 0, lng = d * 180 / (6371000 * pi)\<rparr>"

definition origin :: GeoLocation where
  "origin = \<lparr>lat = 0, lng = 0\<rparr>"

text \<open>
  The scenario of the specification: a target at \<open>(0, 0)\<close> with the default radius of
  100 m, set while the last fix is 500 m away; then the state after a fix at 50 m.
\<close>

definition scenario_target :: TargetLocation where
  "scenario_target = \<lparr>lat = 0, lng = 0, radius = 100, timestamp = 0\<rparr>"

definition scenario_armed :: App_state where
  "scenario_armed =
     App_init\<lparr>userLocation := Some (fix_at 500),
              targetLocation := Some scenario_target,
              distance := Some (Num 500)\<rparr>"

definition scenario_triggered :: App_state where
  "scenario_triggered =
     scenario_armed\<lparr>userLocation := Some (fix_at 50), distance := Some (Num 50),
                    isAlarmActive := True, hasTriggeredForCurrentTarget := True\<rparr>"

section \<open>The distance\<close>

text \<open>
  What \<^verbatim>\<open>calculateDistance\<close> computes when the arithmetic is exact: the argument
  \<^verbatim>\<open>a\<close> lies between 0 and 1 and the result is the value of the haversine formula. These
  lemmas give the distances of the scenario fixes; they say nothing of the rounding of
  doubles.
\<close>

lemma cos_prod_bounds:
  fixes x y :: real
  shows "- ((sin ((y - x) / 2))\<^sup>2) \<le> cos x * cos y" and "cos x * cos y \<le> 1 - (sin ((y - x) / 2))\<^sup>2"
proof -
  have s: "cos (y - x) + cos (x + y) = 2 * (cos x * cos y)"
    by (simp add: cos_add cos_diff)
  have d: "cos (y - x) = 1 - 2 * (sin ((y - x) / 2))\<^sup>2"
  proof -
    have "2 * ((y - x) / 2) = y - x" by simp
    then show ?thesis using cos_double_sin [of "(y - x) / 2"] by (simp del: times_divide_eq_right)
  qed
  have b1: "cos (x + y) \<le> 1" and b2: "- 1 \<le> cos (x + y)" by simp_all
  show "- ((sin ((y - x) / 2))\<^sup>2) \<le> cos x * cos y" using s d b2 by linarith
  show "cos x * cos y \<le> 1 - (sin ((y - x) / 2))\<^sup>2" using s d b1 by linarith
qed

lemma haversine_arg_bounds: "0 \<le> haversine_arg p q \<and> haversine_arg p q \<le> 1"
proof -
  define s where "s = (sin ((radians (lat q) - radians (lat p)) / 2))\<^sup>2"
  define k where "k = cos (radians (lat p)) * cos (radians (lat q))"
  define m where "m = (sin ((radians (lng q) - radians (lng p)) / 2))\<^sup>2"
  have a: "haversine_arg p q = s + k * m"
    by (simp add: haversine_arg_def hav_def s_def k_def m_def)
  have s0: "0 \<le> s" by (simp add: s_def)
  have m0: "0 \<le> m" by (simp add: m_def)
  have s1: "s \<le> 1"
    unfolding s_def using sin_squared_eq [of "(radians (lat q) - radians (lat p)) / 2"] by simp
  have m1: "m \<le> 1" unfolding m_def using sin_squared_eq [of "(radians (lng q) - radians (lng p)) / 2"] by simp
  have k1: "- s \<le> k" and k2: "k \<le> 1 - s"
    unfolding s_def k_def by (rule cos_prod_bounds)+
  show ?thesis
  proof (cases "0 \<le> k")
    case True
    then have "0 \<le> k * m" and "k * m \<le> k" using m0 m1 by (simp_all add: mult_left_le)
    then show ?thesis using a s0 k2 by simp
  next
    case False
    then have "k * m \<le> 0" using m0 by (simp add: mult_nonpos_nonneg)
    moreover have "k \<le> k * m" using False m1 m0 by (smt (verit) mult_left_le_one_le mult_minus_left neg_le_iff_le mult.commute)
    ultimately show ?thesis using a s0 s1 k1 by simp
  qed
qed

lemma atan2_sqrt_arcsin:
  assumes "0 \<le> a" and "a \<le> 1"
  shows "js_atan2 (sqrt a) (sqrt (1 - a)) = arcsin (sqrt a)"
proof (cases "a = 1")
  case True
  then show ?thesis by (simp add: js_atan2_def)
next
  case False
  with assms have lt: "a < 1" by simp
  then have pos: "0 < sqrt (1 - a)" by simp
  have x0: "0 \<le> sqrt a" using assms by simp
  have x1: "sqrt a < 1" using lt assms by (simp add: real_sqrt_lt_1_iff)
  have sq: "(sqrt a)\<^sup>2 = a" using assms by simp
  have "arcsin (sqrt a) = arctan (sqrt a / sqrt (1 - (sqrt a)\<^sup>2))"
    using x0 x1 by (intro arcsin_arctan) linarith+
  then show ?thesis using pos sq by (simp add: js_atan2_def)
qed

lemma calculateDistance_haversine: "calculateDistance p q = Num (haversine_spec p q)"
proof -
  define a where "a = haversine_arg p q"
  have b: "0 \<le> a" "a \<le> 1" using haversine_arg_bounds [of p q] by (simp_all add: a_def)
  have e: "sin ((lat q - lat p) * pi / 180 / 2) * sin ((lat q - lat p) * pi / 180 / 2)
        + cos (lat p * pi / 180) * cos (lat q * pi / 180)
          * sin ((lng q - lng p) * pi / 180 / 2) * sin ((lng q - lng p) * pi / 180 / 2) = a"
    by (simp add: a_def haversine_arg_def hav_def radians_def power2_eq_square algebra_simps diff_divide_distrib)
  have "calculateDistance p q = Num (6371000 * (2 * js_atan2 (sqrt a) (sqrt (1 - a))))"
    unfolding calculateDistance_def distance_of_a_def Let_def e using b
    by (simp add: js_sqrt_def)
  then show ?thesis
    using atan2_sqrt_arcsin [OF b] by (simp add: haversine_spec_def a_def)
qed

lemma calculateDistance_of_a: "calculateDistance p q = distance_of_a (haversine_arg p q)"
proof -
  have "sin ((lat q - lat p) * pi / 180 / 2) * sin ((lat q - lat p) * pi / 180 / 2)
        + cos (lat p * pi / 180) * cos (lat q * pi / 180)
          * sin ((lng q - lng p) * pi / 180 / 2) * sin ((lng q - lng p) * pi / 180 / 2)
      = haversine_arg p q"
    by (simp add: haversine_arg_def hav_def radians_def power2_eq_square algebra_simps
        diff_divide_distrib)
  then show ?thesis
    unfolding calculateDistance_def Let_def by simp
qed

lemma radians_alt: "radians d = d * (pi / 180)"
  by (simp add: radians_def)

lemma radians_le_iff: "radians x \<le> radians y \<longleftrightarrow> x \<le> y"
  unfolding radians_alt by (rule mult_le_cancel_right_pos) simp

lemma radians_eq_iff: "radians x = radians y \<longleftrightarrow> x = y"
  unfolding radians_alt by simp

lemma radians_diff: "radians y - radians x = radians (y - x)"
  unfolding radians_alt by (simp add: left_diff_distrib)

lemma radians_values:
  "radians 90 = pi / 2" "radians (- 90) = - (pi / 2)" "radians 180 = pi"
  "radians (- 180) = - pi" "radians 0 = 0"
  by (simp_all add: radians_def)

lemma equator_distance:
  assumes "lat p = 0" and "lat q = 0" and "\<bar>lng q - lng p\<bar> \<le> 180"
  shows "haversine_spec p q = 6371000 * radians \<bar>lng q - lng p\<bar>"
proof -
  define x where "x = radians \<bar>lng q - lng p\<bar> / 2"
  have "radians 0 \<le> radians \<bar>lng q - lng p\<bar>" "radians \<bar>lng q - lng p\<bar> \<le> radians 180"
    using assms(3) unfolding radians_le_iff by simp_all
  then have x0: "0 \<le> x" and x1: "x \<le> pi / 2"
    by (simp_all add: x_def radians_values)
  have "(sin (radians (lng q - lng p) / 2))\<^sup>2 = (sin x)\<^sup>2"
  proof (cases "0 \<le> lng q - lng p")
    case True
    then show ?thesis by (simp add: x_def)
  next
    case False
    then have "\<bar>lng q - lng p\<bar> = - (lng q - lng p)" by simp
    then have "radians \<bar>lng q - lng p\<bar> = - radians (lng q - lng p)"
      by (simp only: radians_alt mult_minus_left)
    then have "radians (lng q - lng p) / 2 = - x"
      by (simp add: x_def)
    then show ?thesis by simp
  qed
  then have "haversine_arg p q = (sin x)\<^sup>2"
    using assms(1,2) by (simp add: haversine_arg_def hav_def radians_diff radians_values)
  moreover have "0 \<le> sin x" using x0 x1 pi_gt_zero by (intro sin_ge_zero) linarith+
  ultimately have "sqrt (haversine_arg p q) = sin x" by simp
  moreover have "arcsin (sin x) = x" using x0 x1 by (intro arcsin_sin) linarith+
  ultimately show ?thesis by (simp add: haversine_spec_def x_def)
qed

lemma haversine_arg_sym: "haversine_arg p q = haversine_arg q p"
proof -
  have "hav (- x) = hav x" for x by (simp add: hav_def)
  from this [of "radians (lat q) - radians (lat p)"] this [of "radians (lng q) - radians (lng p)"]
  show ?thesis by (simp add: haversine_arg_def mult.commute)
qed

lemma calculateDistance_sym: "calculateDistance p q = calculateDistance q p"
  by (simp add: calculateDistance_haversine haversine_spec_def haversine_arg_sym [of p q])

lemma same_place_distance:
  "lat p = lat q \<Longrightarrow> lng p = lng q \<Longrightarrow> calculateDistance p q = Num 0"
  by (simp add: calculateDistance_haversine haversine_spec_def haversine_arg_def hav_def)

lemma calculateDistance_radius: "calculateDistance p (t\<lparr>radius := r\<rparr>) = calculateDistance p t"
  by (simp add: calculateDistance_def)

lemma geo_eta: "\<lparr>lat = lat c, lng = lng c\<rparr> = (c::GeoLocation)"
  by simp

lemma distance_fix_at:
  assumes "lat t = 0" and "lng t = 0" and "0 \<le> d" and "d \<le> 12742000"
  shows "calculateDistance (fix_at d) t = Num d"
proof -
  have l: "lng (fix_at d) = d * 180 / (6371000 * pi)" and la: "lat (fix_at d) = 0"
    by (simp_all add: fix_at_def)
  have nn: "0 \<le> lng (fix_at d)" using assms(3) by (simp add: l)
  have "d \<le> 6371000 * pi" using assms(4) pi_ge_two by linarith
  then have "d * 180 \<le> 180 * (6371000 * pi)" by simp
  then have "lng (fix_at d) \<le> 180"
    unfolding l using pi_gt_zero by (simp add: divide_le_eq)
  then have b: "\<bar>lng (fix_at d) - lng t\<bar> \<le> 180" using nn assms(2) by simp
  have "calculateDistance (fix_at d) t = calculateDistance t (fix_at d)"
    by (rule calculateDistance_sym)
  also have "\<dots> = Num (6371000 * radians \<bar>lng (fix_at d) - lng t\<bar>)"
    using equator_distance [of t "fix_at d"] assms(1) la b
    by (simp add: calculateDistance_haversine)
  also have "6371000 * radians \<bar>lng (fix_at d) - lng t\<bar> = d"
  proof -
    have "\<bar>lng (fix_at d) - lng t\<bar> = lng (fix_at d)" using nn assms(2) by simp
    moreover have "6371000 * (d * 180 / (6371000 * pi) * pi / 180) = d" by simp
    ultimately show ?thesis by (simp only: radians_def l)
  qed
  finally show ?thesis .
qed

section \<open>The geofencing effect and the events\<close>

lemma geofence_effect_again:
  "geofence_effect (fst (geofence_effect s)) = (fst (geofence_effect s), 0)"
  by (simp add: geofence_effect_def triggerAlarm_def Let_def split: option.splits)

lemma settle_eq: "settle s = geofence_effect s"
proof -
  define r where "r = geofence_effect s"
  have again: "geofence_effect (fst r) = (fst r, 0)"
    unfolding r_def by (rule geofence_effect_again)
  have rest: "settle (fst r) = (fst r, 0)"
    by (subst settle.simps) (simp only: again Let_def fst_conv snd_conv simp_thms if_True)
  have "settle s = (if isAlarmActive (fst r) = isAlarmActive s
            \<and> hasTriggeredForCurrentTarget (fst r) = hasTriggeredForCurrentTarget s
         then r else (fst r, snd r + 0))"
    by (subst settle.simps) (simp only: Let_def r_def [symmetric] rest fst_conv snd_conv)
  then show ?thesis by (simp add: r_def del: settle.simps)
qed

lemma deps_changed_iff:
  assumes "userLocation s' = userLocation s" and "targetLocation s' = targetLocation s"
  shows "deps_changed e s s' \<longleftrightarrow>
         stores_new_object e s \<or> isAlarmActive s \<noteq> isAlarmActive s'
         \<or> hasTriggeredForCurrentTarget s \<noteq> hasTriggeredForCurrentTarget s'"
  by (simp add: deps_changed_def assms)

lemma dispatch_Position: "dispatch s (Position p) = geofence_effect (onPosition p s)"
  by (simp add: dispatch_def deps_changed_def settle_eq)

lemma dispatch_MapClick:
  "dispatch s (MapClick loc now) = geofence_effect (handleSetTarget loc now s)"
  by (simp add: dispatch_def deps_changed_def settle_eq)

lemma dispatch_SearchSelect:
  "dispatch s (SearchSelect loc name now now') =
     geofence_effect (handleSearchSelect loc name now now' s)"
  by (simp add: dispatch_def deps_changed_def settle_eq)

lemma dispatch_RadiusChange:
  "dispatch s (RadiusChange r) =
     (if targetLocation s = None then (handleRadiusChange r s, 0)
      else geofence_effect (handleRadiusChange r s))"
proof (cases "targetLocation s")
  case None
  then have "\<not> deps_changed (RadiusChange r) s (handleRadiusChange r s)"
    by (subst deps_changed_iff) (simp_all add: handleRadiusChange_def)
  then show ?thesis using None by (simp add: dispatch_def)
next
  case (Some t)
  then show ?thesis by (simp add: dispatch_def deps_changed_def settle_eq)
qed

lemma dispatch_DismissAlarm:
  "dispatch s DismissAlarm =
     (if isAlarmActive s then geofence_effect (handleDismissAlarm s)
      else (handleDismissAlarm s, 0))"
  by (simp add: dispatch_def deps_changed_iff settle_eq handleDismissAlarm_def)

lemma geofence_effect_no_target:
  "targetLocation s = None \<Longrightarrow> geofence_effect s = (s\<lparr>distance := None\<rparr>, 0)"
  by (simp add: geofence_effect_def split: option.splits)

lemma dispatch_ClearTarget:
  "dispatch s ClearTarget =
     (if targetLocation s \<noteq> None \<or> isAlarmActive s \<or> hasTriggeredForCurrentTarget s
      then ((handleClearTarget s)\<lparr>distance := None\<rparr>, 0)
      else (handleClearTarget s, 0))"
proof -
  have t: "targetLocation (handleClearTarget s) = None" by (simp add: handleClearTarget_def)
  have d: "deps_changed ClearTarget s (handleClearTarget s) \<longleftrightarrow>
        targetLocation s \<noteq> None \<or> isAlarmActive s \<or> hasTriggeredForCurrentTarget s"
    by (cases "targetLocation s") (simp_all add: deps_changed_def handleClearTarget_def)
  show ?thesis
    by (simp add: dispatch_def d settle_eq geofence_effect_no_target [OF t] del: not_None_eq)
qed

lemma dispatch_other:
  "dispatch s (Start b) = (handleStart b s, 0)"
  "dispatch s (PositionError h c m) = (onPositionError h c m s, 0)"
  "dispatch s (CenterLocation now) = (handleCenterLocation now s, 0)"
proof -
  show "dispatch s (Start b) = (handleStart b s, 0)"
    by (simp add: dispatch_def deps_changed_iff handleStart_def startWatchingLocation_def
        clearWatch_def attemptWatch_def Let_def split: option.splits sum.splits)
  show "dispatch s (PositionError h c m) = (onPositionError h c m s, 0)"
    by (simp add: dispatch_def deps_changed_iff onPositionError_def attemptWatch_def)
  show "dispatch s (CenterLocation now) = (handleCenterLocation now s, 0)"
    by (simp add: dispatch_def deps_changed_iff handleCenterLocation_def split: option.splits)
qed

subsection \<open>Steps and runs of fixes\<close>

lemma position_step:
  assumes "targetLocation s = Some t"
  shows "dispatch s (Position p) =
     (let s1 = s\<lparr>userLocation := Some p, permissionError := None,
                  distance := Some (calculateDistance p t)\<rparr>
      in if within_radius p t
         then (if \<not> isAlarmActive s \<and> \<not> hasTriggeredForCurrentTarget s
               then (triggerAlarm s1, 1) else (s1, 0))
         else (if beyond_band p t
               then (s1\<lparr>hasTriggeredForCurrentTarget := False\<rparr>, 0) else (s1, 0)))"
  using assms
  by (simp add: dispatch_Position onPosition_def geofence_effect_def geo_eta
      within_radius_def beyond_band_def Let_def)

lemma fix_outside_armed:
  assumes "targetLocation s = Some t" and "\<not> hasTriggeredForCurrentTarget s"
    and "\<not> isAlarmActive s" and "\<not> within_radius p t"
  shows "snd (dispatch s (Position p)) = 0"
    and "targetLocation (fst (dispatch s (Position p))) = Some t"
    and "\<not> hasTriggeredForCurrentTarget (fst (dispatch s (Position p)))"
    and "\<not> isAlarmActive (fst (dispatch s (Position p)))"
  using assms by (simp_all add: position_step Let_def)

lemma fix_inside_armed:
  assumes "targetLocation s = Some t" and "\<not> hasTriggeredForCurrentTarget s"
    and "\<not> isAlarmActive s" and "within_radius p t"
  shows "snd (dispatch s (Position p)) = 1"
    and "targetLocation (fst (dispatch s (Position p))) = Some t"
    and "hasTriggeredForCurrentTarget (fst (dispatch s (Position p)))"
  using assms by (simp_all add: position_step triggerAlarm_def Let_def)

lemma fixes_outside_armed:
  assumes "targetLocation s = Some t" and "\<not> hasTriggeredForCurrentTarget s"
    and "\<not> isAlarmActive s" and "\<forall>q\<in>set pre. \<not> within_radius q t"
  shows "arrivals s (map Position pre @ es) =
           replicate (length pre) 0 @ arrivals (final s (map Position pre)) es
         \<and> targetLocation (final s (map Position pre)) = Some t
         \<and> \<not> hasTriggeredForCurrentTarget (final s (map Position pre))
         \<and> \<not> isAlarmActive (final s (map Position pre))"
  using assms
proof (induction pre arbitrary: s)
  case Nil
  then show ?case by simp
next
  case (Cons q pre)
  from Cons.prems have q: "\<not> within_radius q t" and rest: "\<forall>q\<in>set pre. \<not> within_radius q t"
    by simp_all
  note step = fix_outside_armed [OF Cons.prems(1) Cons.prems(2) Cons.prems(3) q]
  from Cons.IH [OF step(2) step(3) step(4) rest] step(1)
  show ?case by simp
qed

lemma final_append: "final s (xs @ ys) = final (final s xs) ys"
  by (induction xs arbitrary: s) simp_all

lemma within_not_beyond: "within_radius p t \<Longrightarrow> \<not> beyond_band p t"
  by (cases "calculateDistance p t") (simp_all add: within_radius_def beyond_band_def num_le_def num_gt_def)

lemma triggered_step:
  assumes "targetLocation s = Some t" and "hasTriggeredForCurrentTarget s"
    and "\<not> known_beyond s" and "no_rearm t x"
  shows "snd (dispatch s x) = 0
         \<and> targetLocation (fst (dispatch s x)) = Some t
         \<and> hasTriggeredForCurrentTarget (fst (dispatch s x))
         \<and> \<not> known_beyond (fst (dispatch s x))"
proof (cases x)
  case (Position q)
  then show ?thesis
    using assms within_not_beyond [of q t]
    by (simp add: position_step known_beyond_def Let_def)
next
  case DismissAlarm
  then show ?thesis
    using assms
    by (cases "userLocation s")
      (auto simp: dispatch_DismissAlarm handleDismissAlarm_def geofence_effect_def
        known_beyond_def beyond_band_def Let_def)
next
  case (Start b)
  then show ?thesis
    using assms
    by (simp add: dispatch_other handleStart_def startWatchingLocation_def clearWatch_def
        attemptWatch_def known_beyond_def Let_def split: option.splits sum.splits)
next
  case (PositionError h c m)
  then show ?thesis
    using assms
    by (auto simp: dispatch_other onPositionError_def attemptWatch_def known_beyond_def
        split: option.splits)
next
  case (CenterLocation now)
  then show ?thesis
    using assms
    by (simp add: dispatch_other handleCenterLocation_def known_beyond_def split: option.splits)
qed (use assms(4) in simp_all)

lemma triggered_run:
  assumes "targetLocation s = Some t" and "hasTriggeredForCurrentTarget s"
    and "\<not> known_beyond s" and "\<forall>x\<in>set post. no_rearm t x"
  shows "arrivals s post = replicate (length post) 0
         \<and> hasTriggeredForCurrentTarget (final s post)"
  using assms
proof (induction post arbitrary: s)
  case Nil
  then show ?case by simp
next
  case (Cons x post)
  from Cons.prems have x: "no_rearm t x" and rest: "\<forall>x\<in>set post. no_rearm t x"
    by simp_all
  from triggered_step [OF Cons.prems(1) Cons.prems(2) Cons.prems(3) x]
  have step: "snd (dispatch s x) = 0" "targetLocation (fst (dispatch s x)) = Some t"
    "hasTriggeredForCurrentTarget (fst (dispatch s x))" "\<not> known_beyond (fst (dispatch s x))"
    by simp_all
  from Cons.IH [OF step(2) step(3) step(4) rest] step(1)
  show ?case by simp
qed

lemma fix_inside_known:
  assumes "targetLocation s = Some t" and "within_radius p t"
  shows "\<not> known_beyond (fst (dispatch s (Position p)))"
  using assms within_not_beyond [of p t]
  by (simp add: position_step known_beyond_def triggerAlarm_def Let_def)

lemma set_target_step:
  "dispatch s (MapClick loc now) =
     (let t = \<lparr>lat = lat loc, lng = lng loc, radius = targetRadius s, timestamp = now\<rparr>;
          s1 = s\<lparr>targetLocation := Some t, hasTriggeredForCurrentTarget := False,
                 isAlarmActive := False\<rparr>
      in case userLocation s of
           None \<Rightarrow> (s1\<lparr>distance := None\<rparr>, 0)
         | Some u \<Rightarrow>
             (if within_radius u t
              then (triggerAlarm (s1\<lparr>distance := Some (calculateDistance u t)\<rparr>), 1)
              else (s1\<lparr>distance := Some (calculateDistance u t)\<rparr>, 0)))"
  by (simp add: dispatch_MapClick handleSetTarget_def geofence_effect_def
      within_radius_def Let_def split: option.splits)

lemma search_select_step:
  "dispatch s (SearchSelect loc name now now') =
     (fst (dispatch s (MapClick loc now))\<lparr>focusRequest := Some (loc, now')\<rparr>,
      snd (dispatch s (MapClick loc now)))"
  by (simp add: dispatch_MapClick dispatch_SearchSelect handleSearchSelect_def
      handleSetTarget_def geofence_effect_def triggerAlarm_def Let_def split: option.splits)

lemma known_inside_set_target:
  "known_inside (handleSetTarget loc now s) =
     (case userLocation s of
        None \<Rightarrow> False
      | Some u \<Rightarrow> within_radius u
          \<lparr>lat = lat loc, lng = lng loc, radius = targetRadius s, timestamp = now\<rparr>)"
  by (simp add: known_inside_def handleSetTarget_def split: option.splits)

lemma set_target_facts:
  assumes e: "e = MapClick loc now \<or> e = SearchSelect loc name now now'"
    and t: "t = \<lparr>lat = lat loc, lng = lng loc, radius = targetRadius s, timestamp = now\<rparr>"
  shows "targetLocation (fst (dispatch s e)) = Some t"
    and "snd (dispatch s e) = (if known_inside (handleSetTarget loc now s) then 1 else 0)"
    and "hasTriggeredForCurrentTarget (fst (dispatch s e)) = known_inside (handleSetTarget loc now s)"
    and "isAlarmActive (fst (dispatch s e)) = known_inside (handleSetTarget loc now s)"
proof -
  have m: "targetLocation (fst (dispatch s (MapClick loc now))) = Some t
    \<and> snd (dispatch s (MapClick loc now)) = (if known_inside (handleSetTarget loc now s) then 1 else 0)
    \<and> hasTriggeredForCurrentTarget (fst (dispatch s (MapClick loc now)))
        = known_inside (handleSetTarget loc now s)
    \<and> isAlarmActive (fst (dispatch s (MapClick loc now)))
        = known_inside (handleSetTarget loc now s)"
    by (cases "userLocation s")
      (simp_all add: set_target_step known_inside_set_target t triggerAlarm_def Let_def)
  from e m show "targetLocation (fst (dispatch s e)) = Some t"
    by (auto simp: search_select_step)
  from e m show "snd (dispatch s e) = (if known_inside (handleSetTarget loc now s) then 1 else 0)"
    by (auto simp: search_select_step)
  from e m show "hasTriggeredForCurrentTarget (fst (dispatch s e))
      = known_inside (handleSetTarget loc now s)"
    by (auto simp: search_select_step)
  from e m show "isAlarmActive (fst (dispatch s e)) = known_inside (handleSetTarget loc now s)"
    by (auto simp: search_select_step)
qed

lemma set_target_known:
  assumes e: "e = MapClick loc now \<or> e = SearchSelect loc name now now'"
  shows "userLocation (fst (dispatch s e)) = userLocation s"
  using e
  by (auto simp: search_select_step set_target_step triggerAlarm_def Let_def
      split: option.splits)

lemma handleRadiusChange_target:
  "targetLocation s = Some t \<Longrightarrow>
     handleRadiusChange r s = s\<lparr>targetRadius := r, targetLocation := Some (t\<lparr>radius := r\<rparr>)\<rparr>"
  by (simp add: handleRadiusChange_def)

lemma radius_change_step:
  assumes "targetLocation s = Some t"
  shows "dispatch s (RadiusChange r) =
           geofence_effect (s\<lparr>targetRadius := r, targetLocation := Some (t\<lparr>radius := r\<rparr>)\<rparr>)"
  using assms by (simp add: dispatch_RadiusChange handleRadiusChange_def)

lemma alarm_active_step:
  assumes "isAlarmActive s" and "keeps_alarm e"
  shows "snd (dispatch s e) = 0 \<and> isAlarmActive (fst (dispatch s e))"
proof (cases e)
  case (Position p)
  then show ?thesis
    using assms(1)
    by (simp add: dispatch_Position onPosition_def geofence_effect_def Let_def
        split: option.splits)
next
  case (RadiusChange r)
  then show ?thesis
    using assms(1)
    by (simp add: dispatch_RadiusChange handleRadiusChange_def geofence_effect_def Let_def
        split: option.splits)
next
  case (Start b)
  then show ?thesis
    using assms(1)
    by (simp add: dispatch_other handleStart_def startWatchingLocation_def clearWatch_def
        attemptWatch_def Let_def split: option.splits sum.splits)
next
  case (PositionError h c m)
  then show ?thesis
    using assms(1) by (simp add: dispatch_other onPositionError_def attemptWatch_def)
next
  case (CenterLocation now)
  then show ?thesis
    using assms(1) by (simp add: dispatch_other handleCenterLocation_def split: option.splits)
qed (use assms(2) in simp_all)

subsection \<open>States at rest\<close>

text \<open>Every state the component reaches from its initial state is at rest.\<close>

lemma at_rest_init: "at_rest App_init"
  by (simp add: at_rest_def geofence_effect_def App_init_def)

lemma at_rest_effect: "at_rest (fst (geofence_effect s))"
  by (simp add: at_rest_def geofence_effect_again)

lemma at_rest_dispatch:
  assumes "at_rest s"
  shows "at_rest (fst (dispatch s e))"
proof (cases e)
  case (Start b)
  then show ?thesis
    using assms
    by (cases s)
      (auto simp: dispatch_other handleStart_def startWatchingLocation_def clearWatch_def
        attemptWatch_def at_rest_def geofence_effect_def triggerAlarm_def Let_def
        split: option.splits if_splits sum.splits)
next
  case (Position p)
  then show ?thesis by (simp add: dispatch_Position at_rest_effect)
next
  case (PositionError h c m)
  then show ?thesis
    using assms
    by (cases s)
      (auto simp: dispatch_other onPositionError_def attemptWatch_def at_rest_def
        geofence_effect_def triggerAlarm_def Let_def split: option.splits if_splits)
next
  case (MapClick loc now)
  then show ?thesis by (simp add: dispatch_MapClick at_rest_effect)
next
  case (SearchSelect loc name now now')
  then show ?thesis by (simp add: dispatch_SearchSelect at_rest_effect)
next
  case (RadiusChange r)
  show ?thesis
  proof (cases "targetLocation s")
    case None
    then show ?thesis
      using assms RadiusChange
      by (cases s)
        (auto simp: dispatch_RadiusChange handleRadiusChange_def at_rest_def
          geofence_effect_def split: option.splits)
  next
    case (Some t)
    then show ?thesis
      using RadiusChange by (simp add: dispatch_RadiusChange at_rest_effect)
  qed
next
  case ClearTarget
  then show ?thesis
    using assms
    by (cases s)
      (auto simp: dispatch_ClearTarget handleClearTarget_def at_rest_def geofence_effect_def
        split: option.splits)
next
  case DismissAlarm
  then show ?thesis
    using assms
    by (cases s)
      (auto simp: dispatch_DismissAlarm at_rest_effect handleDismissAlarm_def at_rest_def
        geofence_effect_def triggerAlarm_def Let_def split: option.splits if_splits)
next
  case (CenterLocation now)
  then show ?thesis
    using assms
    by (cases s)
      (auto simp: dispatch_other handleCenterLocation_def at_rest_def geofence_effect_def
        triggerAlarm_def Let_def split: option.splits if_splits)
qed

lemma at_rest_final: "at_rest s \<Longrightarrow> at_rest (final s es)"
  by (induction es arbitrary: s) (simp_all add: at_rest_dispatch)

section \<open>The scenario states\<close>

text \<open>
  The fixes of the scenarios are at the distance their name says, and the scenario
  states are those the component reaches from its initial state.
\<close>

lemma scenario_distance:
  "0 \<le> d \<Longrightarrow> d \<le> 12742000 \<Longrightarrow> calculateDistance (fix_at d) scenario_target = Num d"
  by (rule distance_fix_at) (simp_all add: scenario_target_def)

lemma scenario_radius: "radius scenario_target = 100"
  by (simp add: scenario_target_def)

lemma scenario_armed_reached:
  "final App_init [Position (fix_at 500), MapClick origin 0] = scenario_armed"
  by (simp add: dispatch_Position dispatch_MapClick onPosition_def handleSetTarget_def
      geofence_effect_def App_init_def geo_eta scenario_armed_def origin_def
      scenario_target_def [symmetric] scenario_distance scenario_radius num_le_def num_gt_def)

lemma scenario_triggered_reached:
  "dispatch scenario_armed (Position (fix_at 50)) = (scenario_triggered, 1)"
  by (simp add: dispatch_Position onPosition_def geofence_effect_def geo_eta
      scenario_armed_def scenario_triggered_def App_init_def triggerAlarm_def
      scenario_distance scenario_radius num_le_def num_gt_def)

lemma scenario_reached:
  "final App_init [Position (fix_at 500), MapClick origin 0, Position (fix_at 50)]
     = scenario_triggered"
proof -
  have "final App_init [Position (fix_at 500), MapClick origin 0, Position (fix_at 50)]
      = final (final App_init [Position (fix_at 500), MapClick origin 0])
          [Position (fix_at 50)]"
    by simp
  then show ?thesis
    by (simp only: scenario_armed_reached) (simp add: scenario_triggered_reached)
qed

lemma App_init_sel:
  "targetRadius App_init = 100" "userLocation App_init = None"
  "targetLocation App_init = None" "\<not> isAlarmActive App_init"
  "\<not> hasTriggeredForCurrentTarget App_init"
  by (simp_all add: App_init_def)

lemma start_state:
  "final App_init [Position (fix_at d)] = App_init\<lparr>userLocation := Some (fix_at d)\<rparr>"
  by (simp add: dispatch_Position onPosition_def geofence_effect_def App_init_def geo_eta)

lemma scenario_triggered_target: "targetLocation scenario_triggered = Some scenario_target"
  by (simp add: scenario_triggered_def scenario_armed_def)

lemma scenario_dead_zone_state:
  "final scenario_triggered [Position (fix_at 120)] =
     scenario_triggered\<lparr>userLocation := Some (fix_at 120), distance := Some (Num 120)\<rparr>"
proof -
  have "targetLocation scenario_triggered = Some scenario_target"
    by (simp add: scenario_triggered_def scenario_armed_def)
  then show ?thesis
    by (simp add: position_step within_radius_def beyond_band_def scenario_distance
        scenario_radius num_le_def num_gt_def Let_def)
      (simp add: scenario_triggered_def scenario_armed_def App_init_def)
qed

lemma scenario_dead_zone_step:
  "dispatch scenario_triggered (Position (fix_at 120)) =
     (scenario_triggered\<lparr>userLocation := Some (fix_at 120), distance := Some (Num 120)\<rparr>, 0)"
  by (simp add: position_step [OF scenario_triggered_target] within_radius_def beyond_band_def
      scenario_distance scenario_radius num_le_def num_gt_def Let_def)
    (simp add: scenario_triggered_def scenario_armed_def App_init_def)

lemma scenario_rearmed_state:
  "dispatch scenario_triggered (Position (fix_at 200)) =
     (scenario_triggered\<lparr>userLocation := Some (fix_at 200), distance := Some (Num 200),
        hasTriggeredForCurrentTarget := False\<rparr>, 0)"
  by (simp add: position_step [OF scenario_triggered_target] within_radius_def beyond_band_def
      scenario_distance scenario_radius num_le_def num_gt_def Let_def)
    (simp add: scenario_triggered_def scenario_armed_def App_init_def)

lemma scenario_returned_state:
  "final scenario_triggered [Position (fix_at 200), Position (fix_at 90)] =
     scenario_triggered\<lparr>userLocation := Some (fix_at 90), distance := Some (Num 90),
        hasTriggeredForCurrentTarget := False\<rparr>"
proof -
  have t: "targetLocation (scenario_triggered\<lparr>userLocation := Some (fix_at 200),
      distance := Some (Num 200), hasTriggeredForCurrentTarget := False\<rparr>) = Some scenario_target"
    by (simp add: scenario_triggered_target)
  show ?thesis
    by (simp add: scenario_rearmed_state position_step [OF t] within_radius_def beyond_band_def
        scenario_distance scenario_radius num_le_def num_gt_def Let_def)
      (simp add: scenario_triggered_def scenario_armed_def App_init_def)
qed

section \<open>Properties\<close>

subsection \<open>The distance contract\<close>


subsection \<open>The accuracy fallback\<close>

text \<open>
  C8. When the watch started with high accuracy reports position unavailable (code 2) or
  timeout (code 3), a watch with low accuracy is started and the error shown to the user
  is left as it was; permission denied (code 1) at either accuracy, and every error of a
  low-accuracy watch, set the error shown to the user to a non-empty message.
\<close>

theorem accuracy_fallback:
  "(code = 2 \<or> code = 3 \<longrightarrow>
      onPositionError True code message s = attemptWatch False s
      \<and> permissionError (onPositionError True code message s) = permissionError s
      \<and> watchIdRef (onPositionError True code message s) = Some (nextWatchId s)
      \<and> watches (onPositionError True code message s) = watches s @ [(nextWatchId s, False)])
   \<and> permissionError (onPositionError isHighAccuracy 1 message s) =
       Some ''Location access denied. Please enable location permissions.''
   \<and> permissionError (onPositionError False code message s) =
       Some (error_message code message)
   \<and> error_message code message \<noteq> []"
  by (simp add: onPositionError_def attemptWatch_def error_message_def)

text \<open>
  After the start button on a browser with geolocation: position unavailable on the
  high-accuracy watch starts the second, low-accuracy watch and shows no error; on a
  low-accuracy watch it shows the message.
\<close>

theorem accuracy_fallback_witness:
  "permissionError (onPositionError True 2 ''unavailable'' (handleStart True App_init)) = None
   \<and> watches (onPositionError True 2 ''unavailable'' (handleStart True App_init)) =
       [(0, True), (1, False)]
   \<and> permissionError (onPositionError False 2 ''unavailable'' (handleStart True App_init)) =
       Some ''Location unavailable. Please check your GPS signal.''"
  using accuracy_fallback [of 2 "''unavailable''" "handleStart True App_init" True]
  by (simp add: handleStart_def startWatchingLocation_def attemptWatch_def App_init_def
      error_message_def)

subsection \<open>Hysteresis\<close>

text \<open>
  C3. Whenever the state is Triggered (\<^verbatim>\<open>hasTriggeredForCurrentTarget\<close> is set) for a target
  of radius \<open>R\<close>, a fix at a distance greater than \<open>R + 50\<close> sets the state back to Armed, and
  a fix at a distance \<open>d\<close> with \<open>R < d \<le> R + 50\<close> leaves it Triggered; neither emits an arrival
  event.
\<close>

theorem hysteresis_dead_zone:
  assumes "targetLocation s = Some t" and "hasTriggeredForCurrentTarget s"
  shows "(beyond_band p t \<longrightarrow>
            \<not> hasTriggeredForCurrentTarget (fst (dispatch s (Position p))))
         \<and> (in_dead_zone p t \<longrightarrow>
            hasTriggeredForCurrentTarget (fst (dispatch s (Position p))))
         \<and> snd (dispatch s (Position p)) = 0"
  using assms
  by (cases "calculateDistance p t")
    (simp_all add: dispatch_Position onPosition_def geofence_effect_def geo_eta
      beyond_band_def in_dead_zone_def Let_def num_gt_def num_le_def)

text \<open>
  In the scenario, after the trigger at 50 m: the fix at 200 m re-arms, the fix at 120 m
  does not.
\<close>

theorem hysteresis_dead_zone_witness:
  "\<not> hasTriggeredForCurrentTarget (fst (dispatch scenario_triggered (Position (fix_at 200))))
   \<and> hasTriggeredForCurrentTarget (fst (dispatch scenario_triggered (Position (fix_at 120))))"
  using hysteresis_dead_zone [of scenario_triggered scenario_target "fix_at 200"]
    hysteresis_dead_zone [of scenario_triggered scenario_target "fix_at 120"]
  by (simp add: scenario_triggered_def scenario_armed_def App_init_def beyond_band_def
      in_dead_zone_def scenario_distance scenario_radius num_gt_def num_le_def)

subsection \<open>Triggering at most once\<close>

text \<open>
  C1 (as amended). A target is freshly set, by a click on the map or the choice of a search
  result, with radius \<open>R\<close>. The arrival check runs when the target is set, on the position
  known then, and on every fix. If the known position is not within \<open>R\<close> of the target
  (or there is none), the fixes at a distance not \<open>\<le> R\<close> that follow produce no arrival
  event and the first fix at a distance \<open>\<le> R\<close> produces exactly one. If the known
  position is within \<open>R\<close>, the one arrival event is produced when the target is set. In
  both cases nothing that follows produces a further arrival event, and the state stays
  Triggered, until the state is re-armed: not the fixes at a distance \<open>\<le> R\<close>, nor the
  fixes in the 50 m band, nor the dismissal of the alarm, in any order and number.
\<close>

theorem at_most_once:
  assumes e: "e = MapClick loc now \<or> e = SearchSelect loc name now now'"
    and t: "t = \<lparr>lat = lat loc, lng = lng loc, radius = targetRadius s, timestamp = now\<rparr>"
    and pre: "\<forall>q\<in>set pre. \<not> within_radius q t"
    and p: "within_radius p t"
    and post: "\<forall>x\<in>set post. no_rearm t x"
  shows "(\<not> known_inside (handleSetTarget loc now s) \<longrightarrow>
            arrivals s (e # map Position pre @ Position p # post) =
              0 # replicate (length pre) 0 @ 1 # replicate (length post) 0
            \<and> hasTriggeredForCurrentTarget (final s (e # map Position pre @ Position p # post)))
         \<and> (known_inside (handleSetTarget loc now s) \<longrightarrow>
            arrivals s (e # post) = 1 # replicate (length post) 0
            \<and> hasTriggeredForCurrentTarget (final s (e # post)))"
proof (intro conjI impI)
  note set = set_target_facts [OF e t]
  assume out: "\<not> known_inside (handleSetTarget loc now s)"
  define s1 where "s1 = fst (dispatch s e)"
  have s1: "targetLocation s1 = Some t" "\<not> hasTriggeredForCurrentTarget s1" "\<not> isAlarmActive s1"
    using set out by (simp_all add: s1_def)
  define s2 where "s2 = final s1 (map Position pre)"
  from fixes_outside_armed [OF s1 pre, of "Position p # post"]
  have a: "arrivals s1 (map Position pre @ Position p # post) =
          replicate (length pre) 0 @ arrivals s2 (Position p # post)"
    and s2: "targetLocation s2 = Some t" "\<not> hasTriggeredForCurrentTarget s2" "\<not> isAlarmActive s2"
    by (simp_all add: s2_def)
  define s3 where "s3 = fst (dispatch s2 (Position p))"
  note hit = fix_inside_armed [OF s2 p]
  have s3: "targetLocation s3 = Some t" "hasTriggeredForCurrentTarget s3" "\<not> known_beyond s3"
    using hit fix_inside_known [OF s2(1) p] by (simp_all add: s3_def)
  note run = triggered_run [OF s3 post]
  have b: "arrivals s2 (Position p # post) = 1 # replicate (length post) 0"
    using hit(1) run by (simp add: s3_def)
  have "arrivals s (e # map Position pre @ Position p # post) =
        snd (dispatch s e) # arrivals s1 (map Position pre @ Position p # post)"
    by (simp add: s1_def)
  then show "arrivals s (e # map Position pre @ Position p # post) =
      0 # replicate (length pre) 0 @ 1 # replicate (length post) 0"
    using set(2) out a b by simp
  have "final s (e # map Position pre @ Position p # post) = final s3 post"
    by (simp add: s1_def s2_def s3_def final_append)
  then show "hasTriggeredForCurrentTarget (final s (e # map Position pre @ Position p # post))"
    using run by simp
next
  note set = set_target_facts [OF e t]
  assume ins: "known_inside (handleSetTarget loc now s)"
  define s1 where "s1 = fst (dispatch s e)"
  have kb: "\<not> known_beyond s1"
  proof -
    from ins obtain u where u: "userLocation s = Some u" and w: "within_radius u t"
      by (auto simp: known_inside_set_target t split: option.splits)
    have "userLocation s1 = Some u"
      using set_target_known [OF e, of s] u by (simp add: s1_def)
    then show ?thesis
      using set(1) w within_not_beyond [of u t] by (simp add: known_beyond_def s1_def)
  qed
  have s1: "targetLocation s1 = Some t" "hasTriggeredForCurrentTarget s1"
    using set ins by (simp_all add: s1_def)
  note run = triggered_run [OF s1 kb post]
  show "arrivals s (e # post) = 1 # replicate (length post) 0"
    using set(2) ins run by (simp add: s1_def)
  show "hasTriggeredForCurrentTarget (final s (e # post))"
    using run by (simp add: s1_def)
qed

text \<open>
  The scenario of the specification, target at \<open>(0, 0)\<close> with radius 100 m set at 500 m
  from it: the fixes at 500, 150 and 80 m give one arrival event, at the third, and the
  dismissal, the fix at 120 m in the band and the fixes at 40 m, before and after a second
  dismissal, give none. A search result chosen at the place where the user stands
  fires at once, and not again after the dismissal.
\<close>

theorem at_most_once_witness:
  "arrivals (final App_init [Position (fix_at 500)])
     (MapClick origin 0 # map Position [fix_at 500, fix_at 150] @ Position (fix_at 80)
        # [DismissAlarm, Position (fix_at 120), Position (fix_at 40), DismissAlarm,
           Position (fix_at 40)])
     = [0, 0, 0, 1, 0, 0, 0, 0, 0]
   \<and> arrivals (final App_init [Position (fix_at 0)])
     (SearchSelect origin ''station'' 0 1 # [DismissAlarm, Position (fix_at 80)]) = [1, 0, 0]"
proof -
  have t: "scenario_target =
      \<lparr>lat = lat origin, lng = lng origin,
       radius = targetRadius (final App_init [Position (fix_at d)]), timestamp = 0\<rparr>" for d
    by (simp only: start_state) (simp add: scenario_target_def origin_def App_init_sel)
  have far: "\<not> known_inside (handleSetTarget origin 0 (final App_init [Position (fix_at 500)]))"
    unfolding known_inside_set_target t [of 500, symmetric]
    by (simp only: start_state)
      (simp add: within_radius_def scenario_distance scenario_radius num_le_def)
  have near: "known_inside (handleSetTarget origin 0 (final App_init [Position (fix_at 0)]))"
    unfolding known_inside_set_target t [of 0, symmetric]
    by (simp only: start_state)
      (simp add: within_radius_def scenario_distance scenario_radius num_le_def)
  have a: "arrivals (final App_init [Position (fix_at 500)])
     (MapClick origin 0 # map Position [fix_at 500, fix_at 150] @ Position (fix_at 80)
        # [DismissAlarm, Position (fix_at 120), Position (fix_at 40), DismissAlarm,
           Position (fix_at 40)])
     = [0, 0, 0, 1, 0, 0, 0, 0, 0]"
    using at_most_once [of "MapClick origin 0" origin 0 "[]" 0 scenario_target
        "final App_init [Position (fix_at 500)]" "[fix_at 500, fix_at 150]" "fix_at 80"
        "[DismissAlarm, Position (fix_at 120), Position (fix_at 40), DismissAlarm,
          Position (fix_at 40)]", OF _ t] far
    by (simp add: within_radius_def beyond_band_def scenario_distance scenario_radius
        num_le_def num_gt_def)
  have b: "arrivals (final App_init [Position (fix_at 0)])
     (SearchSelect origin ''station'' 0 1 # [DismissAlarm, Position (fix_at 80)]) = [1, 0, 0]"
    using at_most_once [of "SearchSelect origin ''station'' 0 1" origin 0 "''station''" 1
        scenario_target "final App_init [Position (fix_at 0)]" "[]" "fix_at 80"
        "[DismissAlarm, Position (fix_at 80)]", OF _ t] near
    by (simp add: within_radius_def beyond_band_def scenario_distance scenario_radius
        num_le_def num_gt_def)
  from a b show ?thesis ..
qed

text \<open>
  C1 as stated fails: the target is set on the user's own position, and the first fix
  at a distance \<open>\<le> R\<close> produces no arrival event; the event came from setting the target.
\<close>

theorem first_fix_counterexample:
  "targetLocation (final App_init [Position (fix_at 0), MapClick origin 0])
     = Some scenario_target
   \<and> within_radius (fix_at 0) scenario_target
   \<and> arrivals (final App_init [Position (fix_at 0)]) [MapClick origin 0, Position (fix_at 0)]
     = [1, 0]"
proof -
  define s0 where "s0 = App_init\<lparr>userLocation := Some (fix_at 0)\<rparr>"
  have s0: "final App_init [Position (fix_at 0)] = s0"
    by (simp only: start_state s0_def)
  have w: "within_radius (fix_at 0) scenario_target"
    by (simp add: within_radius_def scenario_distance scenario_radius num_le_def)
  have t: "\<lparr>lat = lat origin, lng = lng origin, radius = targetRadius s0, timestamp = 0\<rparr>
      = scenario_target"
    by (simp add: s0_def origin_def scenario_target_def App_init_sel)
  have click: "dispatch s0 (MapClick origin 0) =
      (triggerAlarm (s0\<lparr>targetLocation := Some scenario_target,
          hasTriggeredForCurrentTarget := False, isAlarmActive := False,
          distance := Some (Num 0)\<rparr>), 1)"
    unfolding set_target_step Let_def t using w
    by (simp add: s0_def scenario_distance)
  have a: "arrivals s0 [MapClick origin 0, Position (fix_at 0)] = [1, 0]"
    using w by (simp add: click position_step triggerAlarm_def Let_def)
  have b: "targetLocation (final s0 [MapClick origin 0]) = Some scenario_target"
    by (simp add: click triggerAlarm_def)
  have "final App_init [Position (fix_at 0), MapClick origin 0] = final s0 [MapClick origin 0]"
    using s0 by simp
  with a b w s0 show ?thesis by simp
qed

subsection \<open>The re-trigger scenario\<close>

text \<open>
  C2 (as amended). For a target of radius 100 m, armed and with no alarm showing, the
  fixes at 50, 120, 200 and 90 m, with no command in between, produce exactly one arrival
  event: the fix at 200 m re-arms, but the alarm of the first event is still active at
  90 m. With the alarm dismissed after the fix at 50 m the events are two, the second at
  the fix at 90 m or, when the dismissal comes after it, at the dismissal.
\<close>

theorem retrigger_scenario:
  assumes "targetLocation s = Some t" and "radius t = 100"
    and "\<not> hasTriggeredForCurrentTarget s" and "\<not> isAlarmActive s"
    and "calculateDistance p1 t = Num 50" and "calculateDistance p2 t = Num 120"
    and "calculateDistance p3 t = Num 200" and "calculateDistance p4 t = Num 90"
  shows "arrivals s [Position p1, Position p2, Position p3, Position p4] = [1, 0, 0, 0]
    \<and> arrivals s [Position p1, DismissAlarm, Position p2, Position p3, Position p4]
        = [1, 0, 0, 0, 1]
    \<and> arrivals s [Position p1, Position p2, DismissAlarm, Position p3, Position p4]
        = [1, 0, 0, 0, 1]
    \<and> arrivals s [Position p1, Position p2, Position p3, DismissAlarm, Position p4]
        = [1, 0, 0, 0, 1]
    \<and> arrivals s [Position p1, Position p2, Position p3, Position p4, DismissAlarm]
        = [1, 0, 0, 0, 1]"
proof -
  note ev = position_step dispatch_DismissAlarm handleDismissAlarm_def geofence_effect_def
    within_radius_def beyond_band_def triggerAlarm_def num_le_def num_gt_def Let_def
  have 1: "arrivals s [Position p1, Position p2, Position p3, Position p4] = [1, 0, 0, 0]"
    using assms by (simp add: ev)
  have 2: "arrivals s [Position p1, DismissAlarm, Position p2, Position p3, Position p4]
        = [1, 0, 0, 0, 1]"
    using assms by (simp add: ev)
  have 3: "arrivals s [Position p1, Position p2, DismissAlarm, Position p3, Position p4]
        = [1, 0, 0, 0, 1]"
    using assms by (simp add: ev)
  have 4: "arrivals s [Position p1, Position p2, Position p3, DismissAlarm, Position p4]
        = [1, 0, 0, 0, 1]"
    using assms by (simp add: ev)
  have 5: "arrivals s [Position p1, Position p2, Position p3, Position p4, DismissAlarm]
        = [1, 0, 0, 0, 1]"
    using assms by (simp add: ev)
  from 1 2 3 4 5 show ?thesis by blast
qed

text \<open>The scenario with the alarm stopped before the last fix.\<close>

theorem retrigger_scenario_witness:
  "arrivals scenario_armed
     [Position (fix_at 50), Position (fix_at 120), Position (fix_at 200), DismissAlarm,
      Position (fix_at 90)] = [1, 0, 0, 0, 1]"
  using retrigger_scenario [of scenario_armed scenario_target "fix_at 50" "fix_at 120"
      "fix_at 200" "fix_at 90"]
  by (simp add: scenario_armed_def App_init_sel scenario_distance scenario_radius)

text \<open>
  C2 as stated fails: in the state reached by setting the target at 500 m, the four
  fixes at exactly 50, 120, 200 and 90 m produce one arrival event, not two.
\<close>

theorem retrigger_counterexample:
  "scenario_armed = final App_init [Position (fix_at 500), MapClick origin 0]
   \<and> calculateDistance (fix_at 50) scenario_target = Num 50
   \<and> calculateDistance (fix_at 120) scenario_target = Num 120
   \<and> calculateDistance (fix_at 200) scenario_target = Num 200
   \<and> calculateDistance (fix_at 90) scenario_target = Num 90
   \<and> sum_list (arrivals scenario_armed
         [Position (fix_at 50), Position (fix_at 120), Position (fix_at 200),
          Position (fix_at 90)]) = 1"
proof -
  have "targetLocation scenario_armed = Some scenario_target"
    by (simp add: scenario_armed_def)
  then have "arrivals scenario_armed
         [Position (fix_at 50), Position (fix_at 120), Position (fix_at 200),
          Position (fix_at 90)] = [1, 0, 0, 0]"
    by (simp add: position_step within_radius_def beyond_band_def triggerAlarm_def
        scenario_armed_def App_init_sel scenario_distance scenario_radius num_le_def num_gt_def
        Let_def)
  then have "sum_list (arrivals scenario_armed
         [Position (fix_at 50), Position (fix_at 120), Position (fix_at 200),
          Position (fix_at 90)]) = 1"
    by simp
  moreover note scenario_armed_reached [symmetric]
  moreover have "calculateDistance (fix_at 50) scenario_target = Num 50"
    "calculateDistance (fix_at 120) scenario_target = Num 120"
    "calculateDistance (fix_at 200) scenario_target = Num 200"
    "calculateDistance (fix_at 90) scenario_target = Num 90"
    by (simp_all add: scenario_distance)
  ultimately show ?thesis by blast
qed

subsection \<open>Setting a target\<close>

text \<open>
  C4 (as amended). Setting a new target, by a click on the map or the choice of a search
  result, resets the arm state and the alarm whatever they were, and the arrival check
  then runs at once on the new target: for every prior state, the target after the event
  is the new one, the position is the known one, and the arm state is Armed with no alarm
  and no arrival event if the known position is not within the radius of the new target
  (or there is none), and Triggered with the alarm active and exactly one arrival event
  if it is. Nothing of this depends on the prior arm state.
\<close>

theorem set_target_resets:
  assumes e: "e = MapClick loc now \<or> e = SearchSelect loc name now now'"
    and t: "t = \<lparr>lat = lat loc, lng = lng loc, radius = targetRadius s, timestamp = now\<rparr>"
  shows "targetLocation (fst (dispatch s e)) = Some t
         \<and> userLocation (fst (dispatch s e)) = userLocation s
         \<and> hasTriggeredForCurrentTarget (fst (dispatch s e)) =
             (case userLocation s of None \<Rightarrow> False | Some u \<Rightarrow> within_radius u t)
         \<and> isAlarmActive (fst (dispatch s e)) =
             (case userLocation s of None \<Rightarrow> False | Some u \<Rightarrow> within_radius u t)
         \<and> snd (dispatch s e) =
             (if (case userLocation s of None \<Rightarrow> False | Some u \<Rightarrow> within_radius u t)
              then 1 else 0)"
proof -
  have k: "known_inside (handleSetTarget loc now s) =
      (case userLocation s of None \<Rightarrow> False | Some u \<Rightarrow> within_radius u t)"
    by (unfold known_inside_set_target t) (rule refl)
  note f = set_target_facts [OF e t, unfolded k]
  from f set_target_known [OF e, of s] show ?thesis by blast
qed

text \<open>
  Triggered, with the last fix at 120 m: a new target at \<open>(0, 0)\<close> with radius 100 m
  leaves the state Armed, with no arrival event.
\<close>

theorem set_target_resets_witness:
  "hasTriggeredForCurrentTarget (final scenario_triggered [Position (fix_at 120)])
   \<and> \<not> hasTriggeredForCurrentTarget
       (final scenario_triggered [Position (fix_at 120), MapClick origin 1])
   \<and> arrivals scenario_triggered [Position (fix_at 120), MapClick origin 1] = [0, 0]"
proof -
  define s where "s = scenario_triggered\<lparr>userLocation := Some (fix_at 120),
      distance := Some (Num 120)\<rparr>"
  define t :: TargetLocation where "t = \<lparr>lat = 0, lng = 0, radius = 100, timestamp = 1\<rparr>"
  have d: "dispatch scenario_triggered (Position (fix_at 120)) = (s, 0)"
    by (simp only: scenario_dead_zone_step s_def)
  have a: "hasTriggeredForCurrentTarget s"
    by (simp add: s_def scenario_triggered_def)
  have u: "userLocation s = Some (fix_at 120)"
    by (simp add: s_def)
  have t: "t = \<lparr>lat = lat origin, lng = lng origin, radius = targetRadius s, timestamp = 1\<rparr>"
    by (simp add: t_def s_def origin_def scenario_triggered_def scenario_armed_def App_init_sel)
  have w: "\<not> within_radius (fix_at 120) t"
    by (simp add: within_radius_def distance_fix_at t_def num_le_def)
  from set_target_resets [of "MapClick origin 1" origin 1 "[]" 0 t s, OF _ t] u w
  have "\<not> hasTriggeredForCurrentTarget (fst (dispatch s (MapClick origin 1)))"
    and "snd (dispatch s (MapClick origin 1)) = 0"
    by simp_all
  with a show ?thesis by (simp add: d)
qed

text \<open>
  C4 as stated fails: Triggered after the fix at 50 m, the user sets a new target on the
  place of that fix; after the event the arm state is Triggered, by a new arrival event.
\<close>

theorem set_target_triggered_counterexample:
  "hasTriggeredForCurrentTarget scenario_triggered
   \<and> targetLocation (fst (dispatch scenario_triggered (MapClick (fix_at 50) 1))) =
       Some \<lparr>lat = lat (fix_at 50), lng = lng (fix_at 50), radius = 100, timestamp = 1\<rparr>
   \<and> hasTriggeredForCurrentTarget (fst (dispatch scenario_triggered (MapClick (fix_at 50) 1)))
   \<and> snd (dispatch scenario_triggered (MapClick (fix_at 50) 1)) = 1"
proof -
  define t :: TargetLocation where
    "t = \<lparr>lat = lat (fix_at 50), lng = lng (fix_at 50), radius = 100, timestamp = 1\<rparr>"
  have u: "userLocation scenario_triggered = Some (fix_at 50)"
    and r: "targetRadius scenario_triggered = 100"
    and a: "hasTriggeredForCurrentTarget scenario_triggered"
    by (simp_all add: scenario_triggered_def scenario_armed_def App_init_sel)
  have "calculateDistance (fix_at 50) t = Num 0"
    by (rule same_place_distance) (simp_all add: t_def)
  then have w: "within_radius (fix_at 50) t"
    by (simp add: within_radius_def num_le_def t_def)
  have "dispatch scenario_triggered (MapClick (fix_at 50) 1) =
      (triggerAlarm (scenario_triggered\<lparr>targetLocation := Some t,
          hasTriggeredForCurrentTarget := False, isAlarmActive := False,
          distance := Some (calculateDistance (fix_at 50) t)\<rparr>), 1)"
    unfolding set_target_step Let_def u r t_def [symmetric] using w by simp
  then show ?thesis
    using a by (simp add: triggerAlarm_def t_def)
qed

subsection \<open>Changing the radius\<close>

text \<open>
  C5 (as amended). In every state that is Triggered, changing the radius emits no arrival
  event and leaves the alarm as it is; the arm state stays Triggered unless the last
  known position is farther than the new radius plus 50 m from the target, in which case
  the hysteresis reset of the arrival check, which runs again on the changed target,
  sets it to Armed.
\<close>

theorem radius_change_while_triggered:
  assumes "hasTriggeredForCurrentTarget s"
  shows "snd (dispatch s (RadiusChange r)) = 0
         \<and> isAlarmActive (fst (dispatch s (RadiusChange r))) = isAlarmActive s
         \<and> hasTriggeredForCurrentTarget (fst (dispatch s (RadiusChange r)))
             = (\<not> known_beyond (handleRadiusChange r s))"
proof (cases "targetLocation s")
  case None
  then show ?thesis
    using assms
    by (simp add: dispatch_RadiusChange handleRadiusChange_def known_beyond_def
        split: option.splits)
next
  case (Some t)
  show ?thesis
  proof (cases "userLocation s")
    case None
    then show ?thesis
      using assms Some
      by (simp add: radius_change_step geofence_effect_def handleRadiusChange_def known_beyond_def)
  next
    case (Some u)
    then show ?thesis
      using assms \<open>targetLocation s = Some t\<close>
      by (cases "calculateDistance u t")
        (simp_all add: radius_change_step geofence_effect_def handleRadiusChange_def
          known_beyond_def beyond_band_def calculateDistance_radius num_le_def num_gt_def Let_def)
  qed
qed

text \<open>After the trigger at 50 m, widening the radius to 500 m changes nothing.\<close>

theorem radius_change_while_triggered_witness:
  "snd (dispatch scenario_triggered (RadiusChange 500)) = 0
   \<and> hasTriggeredForCurrentTarget (fst (dispatch scenario_triggered (RadiusChange 500)))"
proof -
  have "\<not> known_beyond (handleRadiusChange 500 scenario_triggered)"
    by (simp add: known_beyond_def handleRadiusChange_def scenario_triggered_def
        scenario_armed_def beyond_band_def calculateDistance_radius scenario_distance num_gt_def)
  moreover have "hasTriggeredForCurrentTarget scenario_triggered"
    by (simp add: scenario_triggered_def)
  ultimately show ?thesis
    using radius_change_while_triggered [of scenario_triggered 500] by simp
qed

text \<open>
  C5 as stated fails: Triggered, with the last fix at 120 m in the band of the 100 m
  zone, the radius is set to 50 m; 120 m is beyond 50 + 50 m and the state is Armed again.
\<close>

theorem radius_change_rearm_counterexample:
  "hasTriggeredForCurrentTarget (final scenario_triggered [Position (fix_at 120)])
   \<and> \<not> hasTriggeredForCurrentTarget
       (final scenario_triggered [Position (fix_at 120), RadiusChange 50])"
proof -
  define s where "s = scenario_triggered\<lparr>userLocation := Some (fix_at 120),
      distance := Some (Num 120)\<rparr>"
  have s: "final scenario_triggered [Position (fix_at 120)] = s"
    by (simp only: scenario_dead_zone_state s_def)
  have t: "targetLocation s = Some scenario_target"
    by (simp add: s_def scenario_triggered_def scenario_armed_def)
  have a: "hasTriggeredForCurrentTarget s"
    by (simp add: s_def scenario_triggered_def)
  have b: "\<not> hasTriggeredForCurrentTarget (fst (dispatch s (RadiusChange 50)))"
    by (simp only: radius_change_step [OF t])
      (simp add: geofence_effect_def calculateDistance_radius
        s_def scenario_triggered_def scenario_armed_def scenario_distance num_le_def num_gt_def
        Let_def)
  have "final scenario_triggered [Position (fix_at 120), RadiusChange 50]
      = fst (dispatch s (RadiusChange 50))"
    using s by simp
  with a b s show ?thesis by simp
qed

text \<open>
  C9 (as amended). The arrival check runs on a change of the radius too: if the arm state
  is Armed, the alarm is not active and the radius is changed so that the distance of the
  last known position is \<open>\<le>\<close> the new radius, one arrival event is emitted at once, with
  no new fix: the position stays the known one, the alarm becomes active and the state
  Triggered.
\<close>

theorem radius_change_rechecks:
  assumes "userLocation s = Some u" and "targetLocation s = Some t"
    and "\<not> hasTriggeredForCurrentTarget s" and "\<not> isAlarmActive s"
    and "num_le (calculateDistance u t) r"
  shows "dispatch s (RadiusChange r) =
           (triggerAlarm (s\<lparr>targetRadius := r, targetLocation := Some (t\<lparr>radius := r\<rparr>),
              distance := Some (calculateDistance u t)\<rparr>), 1)"
  using assms
  by (simp add: radius_change_step geofence_effect_def calculateDistance_radius Let_def)

text \<open>Armed at 500 m from the target of radius 100 m: the radius 600 m fires.\<close>

theorem radius_change_rechecks_witness:
  "arrivals scenario_armed [RadiusChange 600] = [1]
   \<and> userLocation (final scenario_armed [RadiusChange 600]) = userLocation scenario_armed"
proof -
  have "dispatch scenario_armed (RadiusChange 600) =
      (triggerAlarm (scenario_armed\<lparr>targetRadius := 600,
          targetLocation := Some (scenario_target\<lparr>radius := 600\<rparr>),
          distance := Some (calculateDistance (fix_at 500) scenario_target)\<rparr>), 1)"
    by (rule radius_change_rechecks)
      (simp_all add: scenario_armed_def App_init_sel scenario_distance num_le_def)
  then show ?thesis by (simp add: triggerAlarm_def)
qed

text \<open>
  C9 as stated fails: after the trigger the fix at 200 m re-arms while the alarm is
  still active; the state is Armed, the radius 250 m puts the known position inside, and
  no arrival event is emitted.
\<close>

theorem radius_change_alarm_counterexample:
  "\<not> hasTriggeredForCurrentTarget (final scenario_triggered [Position (fix_at 200)])
   \<and> known_inside (handleRadiusChange 250 (final scenario_triggered [Position (fix_at 200)]))
   \<and> arrivals scenario_triggered [Position (fix_at 200), RadiusChange 250] = [0, 0]"
proof -
  define s where "s = scenario_triggered\<lparr>userLocation := Some (fix_at 200),
      distance := Some (Num 200), hasTriggeredForCurrentTarget := False\<rparr>"
  have s: "dispatch scenario_triggered (Position (fix_at 200)) = (s, 0)"
    by (simp only: scenario_rearmed_state s_def)
  have t: "targetLocation s = Some scenario_target"
    by (simp add: s_def scenario_triggered_target)
  have a: "\<not> hasTriggeredForCurrentTarget s"
    by (simp add: s_def)
  have k: "known_inside (handleRadiusChange 250 s)"
    by (simp only: handleRadiusChange_target [OF t])
      (simp add: known_inside_def within_radius_def calculateDistance_radius s_def
        scenario_distance num_le_def)
  have r: "snd (dispatch s (RadiusChange 250)) = 0"
    by (simp only: radius_change_step [OF t])
      (simp add: geofence_effect_def calculateDistance_radius Let_def s_def
        scenario_triggered_def scenario_distance num_le_def)
  show ?thesis
    using a k r by (simp add: s)
qed

subsection \<open>Dismissing the alarm\<close>

text \<open>
  C6 (as amended). In every state at rest, dismissing sets \<^verbatim>\<open>isAlarmActive\<close> to false and
  changes nothing else, with no arrival event, except in a state that is Armed with the
  alarm active and the last known position inside the zone: there the arrival check,
  which runs again when the alarm flag changes, fires at once, and the result is the
  state before with the arm state Triggered, the alarm still active, and one arrival
  event. In both cases the target, the position and the distance are unchanged, and a
  Triggered state stays Triggered.
\<close>

theorem dismiss_frame:
  assumes "at_rest s"
  shows "dispatch s DismissAlarm =
           (if isAlarmActive s \<and> \<not> hasTriggeredForCurrentTarget s \<and> known_inside s
            then (s\<lparr>hasTriggeredForCurrentTarget := True\<rparr>, 1)
            else (s\<lparr>isAlarmActive := False\<rparr>, 0))"
  using assms
  by (cases s)
    (auto simp: at_rest_def dispatch_DismissAlarm handleDismissAlarm_def geofence_effect_def
      known_inside_def within_radius_def triggerAlarm_def Let_def
      split: option.splits if_splits)

text \<open>After the trigger of the scenario, dismissing only clears the alarm flag.\<close>

theorem dismiss_frame_witness:
  "at_rest scenario_triggered
   \<and> dispatch scenario_triggered DismissAlarm = (scenario_triggered\<lparr>isAlarmActive := False\<rparr>, 0)"
proof -
  have r: "at_rest scenario_triggered"
    by (simp add: at_rest_def geofence_effect_def scenario_triggered_def scenario_armed_def
        App_init_def scenario_distance scenario_radius num_le_def Let_def)
  have "hasTriggeredForCurrentTarget scenario_triggered"
    by (simp add: scenario_triggered_def)
  with dismiss_frame [OF r] r show ?thesis by simp
qed

text \<open>
  C6 as stated fails: after the trigger, the fix at 200 m re-arms and the fix at 90 m
  is inside again, the alarm still active; dismissing then leaves the alarm active,
  changes the arm state to Triggered and emits an arrival event.
\<close>

theorem dismiss_refires_counterexample:
  "\<not> hasTriggeredForCurrentTarget
       (final scenario_triggered [Position (fix_at 200), Position (fix_at 90)])
   \<and> isAlarmActive (final scenario_triggered [Position (fix_at 200), Position (fix_at 90)])
   \<and> hasTriggeredForCurrentTarget
       (final scenario_triggered [Position (fix_at 200), Position (fix_at 90), DismissAlarm])
   \<and> isAlarmActive
       (final scenario_triggered [Position (fix_at 200), Position (fix_at 90), DismissAlarm])
   \<and> arrivals scenario_triggered [Position (fix_at 200), Position (fix_at 90), DismissAlarm]
       = [0, 0, 1]"
proof -
  define s where "s = scenario_triggered\<lparr>userLocation := Some (fix_at 90),
      distance := Some (Num 90), hasTriggeredForCurrentTarget := False\<rparr>"
  have s: "final scenario_triggered [Position (fix_at 200), Position (fix_at 90)] = s"
    by (simp only: scenario_returned_state s_def)
  have a: "\<not> hasTriggeredForCurrentTarget s" "isAlarmActive s"
    by (simp_all add: s_def scenario_triggered_def)
  have d: "dispatch s DismissAlarm = (s\<lparr>isAlarmActive := False,
      isAlarmActive := True, hasTriggeredForCurrentTarget := True\<rparr>, 1)"
    by (simp add: dispatch_DismissAlarm a handleDismissAlarm_def geofence_effect_def
        triggerAlarm_def Let_def)
      (simp add: s_def scenario_triggered_target scenario_distance scenario_radius num_le_def
        scenario_triggered_def scenario_armed_def triggerAlarm_def App_init_def)
  have f: "final scenario_triggered [Position (fix_at 200), Position (fix_at 90), DismissAlarm]
      = fst (dispatch s DismissAlarm)"
    using s by simp
  have t2: "targetLocation (fst (dispatch scenario_triggered (Position (fix_at 200))))
      = Some scenario_target"
    by (simp add: scenario_rearmed_state scenario_triggered_target)
  have "arrivals scenario_triggered [Position (fix_at 200), Position (fix_at 90)] = [0, 0]"
    by (simp add: scenario_rearmed_state position_step [OF t2 [unfolded scenario_rearmed_state fst_conv]]
        within_radius_def scenario_distance scenario_radius num_le_def Let_def)
      (simp add: scenario_triggered_def)
  then have g: "arrivals scenario_triggered [Position (fix_at 200), Position (fix_at 90), DismissAlarm]
      = [0, 0, snd (dispatch s DismissAlarm)]"
    using s by simp
  show ?thesis
    unfolding f g s by (simp add: a d)
qed

subsection \<open>No arrival while the alarm is active\<close>

text \<open>
  C10. While the alarm is active the arrival check emits no arrival event; and no run of
  events that neither dismiss the alarm nor replace or clear the target (fixes, radius
  changes, watch errors, the start and centre buttons) emits one or changes the alarm
  flag, whatever the hysteresis does to the arm state in between. So after re-arming by
  leaving the band, re-entering the radius emits nothing until the alarm is dismissed or
  the target replaced or cleared.
\<close>

theorem no_arrival_while_alarm_active:
  assumes "isAlarmActive s" and "\<forall>e\<in>set es. keeps_alarm e"
  shows "snd (geofence_effect s) = 0
         \<and> arrivals s es = replicate (length es) 0
         \<and> isAlarmActive (final s es)"
proof -
  have "snd (geofence_effect s) = 0"
    using assms(1) by (simp add: geofence_effect_def Let_def split: option.splits)
  moreover have "arrivals s es = replicate (length es) 0 \<and> isAlarmActive (final s es)"
    using assms
  proof (induction es arbitrary: s)
    case Nil
    then show ?case by simp
  next
    case (Cons e es)
    from Cons.prems have "keeps_alarm e" and rest: "\<forall>e\<in>set es. keeps_alarm e" by simp_all
    with Cons.prems(1) have step: "snd (dispatch s e) = 0" "isAlarmActive (fst (dispatch s e))"
      using alarm_active_step by blast+
    from Cons.IH [OF step(2) rest] step(1) show ?case by simp
  qed
  ultimately show ?thesis by simp
qed

text \<open>
  After the trigger, alarm active: the fix at 200 m re-arms, the fix at 90 m is inside
  the radius, and neither emits an arrival event.
\<close>

theorem no_arrival_while_alarm_active_witness:
  "isAlarmActive scenario_triggered
   \<and> \<not> hasTriggeredForCurrentTarget (final scenario_triggered [Position (fix_at 200)])
   \<and> arrivals scenario_triggered [Position (fix_at 200), Position (fix_at 90)] = [0, 0]"
proof -
  have a: "isAlarmActive scenario_triggered"
    by (simp add: scenario_triggered_def)
  have "arrivals scenario_triggered [Position (fix_at 200), Position (fix_at 90)]
      = replicate (length [Position (fix_at 200), Position (fix_at 90)]) 0"
    using no_arrival_while_alarm_active [OF a, of "[Position (fix_at 200), Position (fix_at 90)]"]
    by simp
  then show ?thesis
    using a by (simp add: scenario_rearmed_state numeral_2_eq_2)
qed

end
